theory Spec2Isabelle
  imports Main
begin

section \<open>Strings\<close>

text \<open>
  A Python \<open>str\<close> is modelled as a \<open>string\<close>: a list of characters, each character a code
  point in the range 0..255.  The functions of this section are the Python built-ins and
  standard-library functions that \<open>backend_fastapi.py\<close> calls, restricted to that range.
\<close>

definition startswith :: "string \<Rightarrow> string \<Rightarrow> bool" where
  "startswith s p \<longleftrightarrow> take (length p) s = p"

text \<open>\<open>p in s\<close> for two strings: \<open>p\<close> starts at some position of \<open>s\<close>.\<close>

fun contains :: "string \<Rightarrow> string \<Rightarrow> bool" where
  "contains [] p = (p = [])"
| "contains (c # cs) p = (startswith (c # cs) p \<or> contains cs p)"

text \<open>\<open>str.isspace\<close> for one character of the range.\<close>

definition py_isspace :: "char \<Rightarrow> bool" where
  "py_isspace c \<longleftrightarrow> (of_char c :: nat) \<in> {9, 10, 11, 12, 13, 28, 29, 30, 31, 32, 133, 160}"

definition strip :: "string \<Rightarrow> string" where
  "strip s = rev (dropWhile py_isspace (rev (dropWhile py_isspace s)))"

text \<open>\<open>str(n)\<close> for an integer.\<close>

fun str_nat :: "nat \<Rightarrow> string" where
  "str_nat n = (if n < 10 then [char_of (48 + n)] else str_nat (n div 10) @ [char_of (48 + n mod 10)])"

declare str_nat.simps [simp del]

definition str_int :: "int \<Rightarrow> string" where
  "str_int i = (if i < 0 then CHR ''-'' # str_nat (nat (- i)) else str_nat (nat i))"

text \<open>\<open>repr(s)\<close> for a string: the quote is \<open>'\<close> unless the string has a \<open>'\<close> and no \<open>"\<close>.\<close>

definition hex_digit :: "nat \<Rightarrow> char" where
  "hex_digit n = (if n < 10 then char_of (48 + n) else char_of (87 + n))"

definition repr_char :: "char \<Rightarrow> char \<Rightarrow> string" where
  "repr_char q c =
     (let n = (of_char c :: nat) in
      if c = q \<or> c = CHR 0x5C then [CHR 0x5C, c]
      else if c = CHR 0x09 then [CHR 0x5C, CHR ''t'']
      else if c = CHR 0x0A then [CHR 0x5C, CHR ''n'']
      else if c = CHR 0x0D then [CHR 0x5C, CHR ''r'']
      else if n < 32 \<or> n = 127 \<or> (128 \<le> n \<and> n \<le> 160) \<or> n = 173
        then [CHR 0x5C, CHR ''x'', hex_digit (n div 16), hex_digit (n mod 16)]
      else [c])"

definition py_repr :: "string \<Rightarrow> string" where
  "py_repr s =
     (let q = (if CHR 0x27 \<in> set s \<and> CHR 0x22 \<notin> set s then CHR 0x22 else CHR 0x27)
      in q # concat (map (repr_char q) s) @ [q])"

section \<open>Exceptions\<close>

text \<open>
  The websocket handler tells \<open>WebSocketDisconnect\<close> from every other exception, and of the
  other ones it reads \<open>str(exc)\<close> only: \<open>Exception m\<close> is an exception whose \<open>str\<close> is \<open>m\<close>.
\<close>

datatype exc = WebSocketDisconnect | Exception string

section \<open>\<open>int(s)\<close> for a string\<close>

text \<open>
  CPython 3.11: white space around the literal is skipped, a sign may come first, the digits
  may be separated by single underscores, a literal of more than 4300 digits is refused,
  and the message of an invalid literal holds \<open>repr(s)\<close> cut at 200 characters.
\<close>

definition int_isspace :: "char \<Rightarrow> bool" where
  "int_isspace c \<longleftrightarrow> (of_char c :: nat) \<in> {9, 10, 11, 12, 13, 32, 133, 160}"

definition is_digit :: "char \<Rightarrow> bool" where
  "is_digit c \<longleftrightarrow> 48 \<le> (of_char c :: nat) \<and> (of_char c :: nat) \<le> 57"

definition digit_value :: "char \<Rightarrow> nat" where
  "digit_value c = of_char c - 48"

text \<open>The run of digits and underscores: no underscore first, last, or after another.\<close>

fun underscores_ok :: "string \<Rightarrow> bool" where
  "underscores_ok [] = True"
| "underscores_ok [c] = (c \<noteq> CHR ''_'')"
| "underscores_ok (c # d # cs) = (\<not> (c = CHR ''_'' \<and> d = CHR ''_'') \<and> underscores_ok (d # cs))"

definition digits_value :: "string \<Rightarrow> nat" where
  "digits_value ds = foldl (\<lambda>acc c. 10 * acc + digit_value c) 0 ds"

definition invalid_literal :: "string \<Rightarrow> exc" where
  "invalid_literal s = Exception (''invalid literal for int() with base 10: '' @ take 200 (py_repr s))"

definition digit_limit :: "nat \<Rightarrow> exc" where
  "digit_limit n = Exception (''Exceeds the limit (4300 digits) for integer string conversion: value has ''
     @ str_nat n @ '' digits; use sys.set_int_max_str_digits() to increase the limit'')"

definition py_int :: "string \<Rightarrow> exc + int" where
  "py_int s =
     (let t = dropWhile int_isspace s;
          negative = (case t of c # _ \<Rightarrow> c = CHR ''-'' | [] \<Rightarrow> False);
          body = (case t of c # cs \<Rightarrow> if c = CHR ''+'' \<or> c = CHR ''-'' then cs else t | [] \<Rightarrow> t);
          run = takeWhile (\<lambda>c. is_digit c \<or> c = CHR ''_'') body;
          rest = dropWhile (\<lambda>c. is_digit c \<or> c = CHR ''_'') body;
          ds = filter is_digit run
      in if run = [] \<or> hd run = CHR ''_'' \<or> \<not> underscores_ok run then Inl (invalid_literal s)
         else if 4300 < length ds then Inl (digit_limit (length ds))
         else if dropWhile int_isspace rest \<noteq> [] then Inl (invalid_literal s)
         else Inr (if negative then - int (digits_value ds) else int (digits_value ds)))"

section \<open>The in-memory stores\<close>

text \<open>
  \<open>BOOKS\<close> and \<open>CHUNKS\<close> are dictionaries keyed by integer; each \<open>itertools.count(1)\<close> is held
  as the value its next \<open>next()\<close> returns.
\<close>

record book =
  book_url :: string
  book_title :: string
  book_chunks :: "int list"

record chunk =
  chunk_book_id :: int
  chunk_text :: string
  chunk_annotation :: string

record store =
  book_id_counter :: int
  chunk_id_counter :: int
  BOOKS :: "int \<rightharpoonup> book"
  CHUNKS :: "int \<rightharpoonup> chunk"

definition init_store :: store where
  "init_store = \<lparr>book_id_counter = 1, chunk_id_counter = 1, BOOKS = Map.empty, CHUNKS = Map.empty\<rparr>"

section \<open>Helpers\<close>

subsection \<open>\<open>clean_gutenberg\<close>\<close>

text \<open>
  The two compiled patterns, each as the function that tries a match at the start of the
  text and returns the length of the match.  \<open>GUTEN_HEADER\<close> is the literal prefix, then
  \<open>.+?\<close> (with \<open>DOTALL\<close>: one or more characters of any kind, as few as possible), then
  three stars.  \<open>GUTEN_FOOTER\<close> is the literal prefix, then \<open>.+\<close>: one or more characters, as
  many as possible, which with \<open>DOTALL\<close> is the whole rest of the text.
\<close>

definition GUTEN_HEADER_literal :: string where
  "GUTEN_HEADER_literal = ''*** START OF THIS PROJECT GUTENBERG EBOOK''"

definition GUTEN_FOOTER_literal :: string where
  "GUTEN_FOOTER_literal = ''*** END OF THIS PROJECT GUTENBERG EBOOK''"

fun lazy_any_then_stars :: "string \<Rightarrow> nat option" where
  "lazy_any_then_stars [] = None"
| "lazy_any_then_stars (c # cs) =
     (if startswith cs ''***'' then Some 4 else map_option Suc (lazy_any_then_stars cs))"

definition GUTEN_HEADER :: "string \<Rightarrow> nat option" where
  "GUTEN_HEADER s =
     (if startswith s GUTEN_HEADER_literal
      then map_option (\<lambda>n. length GUTEN_HEADER_literal + n)
             (lazy_any_then_stars (drop (length GUTEN_HEADER_literal) s))
      else None)"

definition GUTEN_FOOTER :: "string \<Rightarrow> nat option" where
  "GUTEN_FOOTER s =
     (if startswith s GUTEN_FOOTER_literal \<and> length GUTEN_FOOTER_literal < length s
      then Some (length s) else None)"

text \<open>
  \<open>pattern.sub("", raw)\<close>: the text is scanned from the left; where the pattern matches, the
  match is left out and the scan goes on after it; elsewhere the character is kept.  The
  first argument is the number of characters of a match still to be left out.
\<close>

fun re_sub_empty :: "(string \<Rightarrow> nat option) \<Rightarrow> nat \<Rightarrow> string \<Rightarrow> string" where
  "re_sub_empty pat k [] = []"
| "re_sub_empty pat (Suc k) (c # cs) = re_sub_empty pat k cs"
| "re_sub_empty pat 0 (c # cs) =
     (case pat (c # cs) of
        None \<Rightarrow> c # re_sub_empty pat 0 cs
      | Some 0 \<Rightarrow> c # re_sub_empty pat 0 cs
      | Some (Suc n) \<Rightarrow> re_sub_empty pat n cs)"

definition clean_gutenberg :: "string \<Rightarrow> string" where
  "clean_gutenberg raw =
     (let raw1 = re_sub_empty GUTEN_HEADER 0 raw;
          raw2 = re_sub_empty GUTEN_FOOTER 0 raw1
      in strip raw2)"

subsection \<open>\<open>fetch_gutenberg_text\<close>\<close>

text \<open>
  The HTTP client is a collaborator: \<open>http_get\<close> is what \<open>http.get(url)\<close> does, \<open>None\<close> when
  it raises (a transport fault).  \<open>raise_for_status\<close> raises unless the status is 2xx.
\<close>

record http_response =
  status_code :: int
  content_type :: "string option"
  response_text :: string

datatype ingest_error =
    Transport_fault
  | HTTP_status_error int
  | Not_plain_text
  | Splitter_fault
  | Key_error int

record ingest_env =
  http_get :: "string \<Rightarrow> http_response option"
  recursive_splitter :: "int \<Rightarrow> int \<Rightarrow> string list \<Rightarrow> string \<Rightarrow> string list option"

definition fetch_gutenberg_text :: "ingest_env \<Rightarrow> string \<Rightarrow> ingest_error + string" where
  "fetch_gutenberg_text env u =
     (case http_get env u of
        None \<Rightarrow> Inl Transport_fault
      | Some r \<Rightarrow>
          if \<not> (200 \<le> status_code r \<and> status_code r \<le> 299) then Inl (HTTP_status_error (status_code r))
          else if \<not> contains (case content_type r of None \<Rightarrow> [] | Some ct \<Rightarrow> ct) ''text''
            then Inl Not_plain_text
          else Inr (response_text r))"

subsection \<open>\<open>split_paragraphs\<close>\<close>

text \<open>
  The splitter is LangChain's \<open>RecursiveCharacterTextSplitter\<close> with the tokenizer as its
  length function, a collaborator: \<open>recursive_splitter\<close> takes the chunk size, the overlap,
  the separators and the text, and returns the chunks, \<open>None\<close> when it raises.
\<close>

definition split_paragraphs :: "ingest_env \<Rightarrow> string \<Rightarrow> int \<Rightarrow> int \<Rightarrow> string list option" where
  "split_paragraphs env txt max_tokens overlap =
     recursive_splitter env max_tokens overlap
       [[CHR 0x0A, CHR 0x0A], [CHR 0x0A], '' '', ''''] txt"

subsection \<open>\<open>get_adjacent_texts\<close>\<close>

text \<open>\<open>xs.index(x)\<close>: the first position of \<open>x\<close>, \<open>None\<close> where Python raises \<open>ValueError\<close>.\<close>

fun list_index :: "int list \<Rightarrow> int \<Rightarrow> nat option" where
  "list_index [] x = None"
| "list_index (y # ys) x = (if y = x then Some 0 else map_option Suc (list_index ys x))"

definition key_error :: "int \<Rightarrow> exc" where
  "key_error k = Exception (str_int k)"

definition chunk_text_at :: "store \<Rightarrow> int \<Rightarrow> exc + string" where
  "chunk_text_at s cid = (case CHUNKS s cid of None \<Rightarrow> Inl (key_error cid) | Some c \<Rightarrow> Inr (chunk_text c))"

definition get_adjacent_texts :: "store \<Rightarrow> int \<Rightarrow> exc + (string \<times> string)" where
  "get_adjacent_texts s chunk_id =
     (case CHUNKS s chunk_id of
        None \<Rightarrow> Inl (key_error chunk_id)
      | Some c \<Rightarrow>
     (case BOOKS s (chunk_book_id c) of
        None \<Rightarrow> Inl (key_error (chunk_book_id c))
      | Some b \<Rightarrow>
     (case list_index (book_chunks b) chunk_id of
        None \<Rightarrow> Inl (Exception (str_int chunk_id @ '' is not in list''))
      | Some idx \<Rightarrow>
     (case (if idx > 0 then chunk_text_at s (book_chunks b ! (idx - 1)) else Inr '''') of
        Inl e \<Rightarrow> Inl e
      | Inr prev_text \<Rightarrow>
     (case (if idx < length (book_chunks b) - 1 then chunk_text_at s (book_chunks b ! (idx + 1)) else Inr '''') of
        Inl e \<Rightarrow> Inl e
      | Inr next_text \<Rightarrow> Inr (prev_text, next_text))))))"

section \<open>The ingest route\<close>

record ingest_response =
  resp_book_id :: int
  resp_chunks :: "int list"

text \<open>\<open>os.path.basename\<close>: what follows the last slash.\<close>

definition basename :: "string \<Rightarrow> string" where
  "basename p = rev (takeWhile (\<lambda>c. c \<noteq> CHR ''/'') (rev p))"

text \<open>
  The body of the \<open>for\<close> loop, once per chunk text: the next chunk id, the chunk record, and
  the id appended to the book's list.  The second component is the exception that ended
  the loop, if any.
\<close>

fun store_chunks :: "int \<Rightarrow> store \<Rightarrow> string list \<Rightarrow> store \<times> ingest_error option" where
  "store_chunks bid s [] = (s, None)"
| "store_chunks bid s (t # ts) =
     (let cid = chunk_id_counter s;
          s1 = s\<lparr>chunk_id_counter := cid + 1,
                 CHUNKS := (CHUNKS s)(cid \<mapsto> \<lparr>chunk_book_id = bid, chunk_text = t, chunk_annotation = ''''\<rparr>)\<rparr>
      in (case BOOKS s1 bid of
           None \<Rightarrow> (s1, Some (Key_error bid))
         | Some b \<Rightarrow>
             store_chunks bid
               (s1\<lparr>BOOKS := (BOOKS s1)(bid \<mapsto> b\<lparr>book_chunks := book_chunks b @ [cid]\<rparr>)\<rparr>) ts))"

definition ingest :: "ingest_env \<Rightarrow> store \<Rightarrow> string \<Rightarrow> store \<times> (ingest_error + ingest_response)" where
  "ingest env s u =
     (case fetch_gutenberg_text env u of
        Inl e \<Rightarrow> (s, Inl e)
      | Inr txt \<Rightarrow>
          let clean = clean_gutenberg txt;
              bid = book_id_counter s;
              s1 = s\<lparr>book_id_counter := bid + 1,
                     BOOKS := (BOOKS s)(bid \<mapsto> \<lparr>book_url = u, book_title = basename u, book_chunks = []\<rparr>)\<rparr>
          in (case split_paragraphs env clean 300 0 of
               None \<Rightarrow> (s1, Inl Splitter_fault)
             | Some texts \<Rightarrow>
                 (case store_chunks bid s1 texts of
                    (s2, Some e) \<Rightarrow> (s2, Inl e)
                  | (s2, None) \<Rightarrow>
                      (case BOOKS s2 bid of
                         None \<Rightarrow> (s2, Inl (Key_error bid))
                       | Some b \<Rightarrow> (s2, Inr \<lparr>resp_book_id = bid, resp_chunks = book_chunks b\<rparr>)))))"

section \<open>\<open>textwrap.dedent\<close>\<close>

text \<open>
  CPython's \<open>textwrap.dedent\<close> (up to 3.13), line by line.  The lines are those of
  \<open>text.split("\n")\<close>, which are the stretches between \<open>^\<close> and \<open>$\<close> of its \<open>MULTILINE\<close> patterns.
  First every line made of spaces and tabs only is emptied (\<open>_whitespace_only_re.sub\<close>);
  then the margin is computed from the leading spaces and tabs of the lines that hold some
  other character (\<open>_leading_whitespace_re.findall\<close>); a margin that is not empty is taken
  off the start of every line that has it.
\<close>

definition is_blank :: "char \<Rightarrow> bool" where
  "is_blank c \<longleftrightarrow> c = CHR '' '' \<or> c = CHR 0x09"

fun split_newline :: "string \<Rightarrow> string list" where
  "split_newline [] = [[]]"
| "split_newline (c # cs) =
     (if c = CHR 0x0A then [] # split_newline cs
      else (case split_newline cs of [] \<Rightarrow> [[c]] | l # ls \<Rightarrow> (c # l) # ls))"

fun join_newline :: "string list \<Rightarrow> string" where
  "join_newline [] = []"
| "join_newline [l] = l"
| "join_newline (l # m # ls) = l @ CHR 0x0A # join_newline (m # ls)"

definition whitespace_only_line :: "string \<Rightarrow> bool" where
  "whitespace_only_line l \<longleftrightarrow> l \<noteq> [] \<and> list_all is_blank l"

definition whitespace_only_sub :: "string \<Rightarrow> string" where
  "whitespace_only_sub txt =
     join_newline (map (\<lambda>l. if whitespace_only_line l then [] else l) (split_newline txt))"

definition leading_whitespace_findall :: "string \<Rightarrow> string list" where
  "leading_whitespace_findall txt =
     map (takeWhile is_blank) (filter (\<lambda>l. dropWhile is_blank l \<noteq> []) (split_newline txt))"

text \<open>The position of the first pair of \<open>zip(margin, indent)\<close> that differs.\<close>

fun first_mismatch :: "string \<Rightarrow> string \<Rightarrow> nat option" where
  "first_mismatch (x # xs) (y # ys) = (if x \<noteq> y then Some 0 else map_option Suc (first_mismatch xs ys))"
| "first_mismatch xs ys = None"

definition update_margin :: "string option \<Rightarrow> string \<Rightarrow> string option" where
  "update_margin margin indent =
     (case margin of
        None \<Rightarrow> Some indent
      | Some m \<Rightarrow>
          if startswith indent m then Some m
          else if startswith m indent then Some indent
          else (case first_mismatch m indent of Some i \<Rightarrow> Some (take i m) | None \<Rightarrow> Some m))"

definition dedent :: "string \<Rightarrow> string" where
  "dedent txt =
     (let txt1 = whitespace_only_sub txt;
          margin = foldl update_margin None (leading_whitespace_findall txt1)
      in (case margin of
            None \<Rightarrow> txt1
          | Some m \<Rightarrow>
              if m = [] then txt1
              else join_newline
                     (map (\<lambda>l. if startswith l m then drop (length m) l else l) (split_newline txt1))))"

section \<open>The websocket route\<close>

record vocab =
  tricky_word :: string
  vocab_definition :: string

record annotation =
  summary :: string
  vocabs :: "vocab list"

text \<open>
  The request of \<open>client.responses.parse\<close>: the model, the messages of \<open>input\<close> as pairs of
  role and content, and the name of the class given as \<open>text_format\<close>.
\<close>

record model_request =
  req_model :: string
  req_input :: "(string \<times> string) list"
  req_text_format :: string

text \<open>
  The collaborators of a session: \<open>responses_parse\<close> is the call of the model capability and
  the \<open>output_parsed\<close> of its response, which may be \<open>None\<close>; \<open>annotation_json\<close> is the
  \<open>json()\<close> of the parsed object; \<open>send_text_raises\<close> is the exception that
  \<open>websocket.send_text\<close> raises on a payload, if any.  \<open>accept\<close> and \<open>close\<close> do not raise.
\<close>

record ws_env =
  responses_parse :: "model_request \<Rightarrow> exc + annotation option"
  annotation_json :: "annotation \<Rightarrow> string"
  send_text_raises :: "string \<Rightarrow> exc option"

text \<open>
  What a session does that can be seen from outside, in order: the calls on the websocket
  and the calls of the model capability.  \<open>Close code reason\<close> is
  \<open>websocket.close(code, reason)\<close>; 1000 is the code of a \<open>close()\<close> without arguments.
\<close>

datatype event =
    Accept
  | Model_call model_request
  | Send_text string
  | Close int "string option"

definition SYSTEM_PROMPT :: string where
  "SYSTEM_PROMPT =
     ''You are a literary annotator. Provide clear, concise commentary ONLY for the text '' @
     ''between the markers '' @ [CHR 0x27] @ ''BEGIN SECTION TO EXPLICATE'' @ [CHR 0x27] @ '' and '' @
     [CHR 0x27] @ ''END SECTION TO EXPLICATE'' @ [CHR 0x27] @ ''. Use the '' @
     ''surrounding context solely to inform your analysis; do not annotate it.'' @
     ''If the relevant section seems to be webpage code or title page etc your summary should just be three dots/ellipses (...) only.''"

definition default_goal :: string where
  "default_goal = ''Explain archaic vocabulary and summarise the paragraph if not web code .''"

text \<open>\<open>query_params.get(key, default)\<close>.\<close>

definition query_get :: "(string \<rightharpoonup> string) \<Rightarrow> string \<Rightarrow> string \<Rightarrow> string" where
  "query_get qp k d = (case qp k of None \<Rightarrow> d | Some v \<Rightarrow> v)"

text \<open>The f-string of the prompt, before \<open>textwrap.dedent\<close>.\<close>

definition prompt_template :: "string \<Rightarrow> string \<Rightarrow> string \<Rightarrow> string \<Rightarrow> string" where
  "prompt_template prev_text chunk_txt next_text goal =
     ''=== CONTEXT BEFORE ==='' @ [CHR 0x0A] @ prev_text @ [CHR 0x0A, CHR 0x0A] @
     ''=== BEGIN SECTION TO EXPLICATE ==='' @ [CHR 0x0A] @ chunk_txt @ [CHR 0x0A] @
     ''=== END SECTION TO EXPLICATE ==='' @ [CHR 0x0A, CHR 0x0A] @
     ''=== CONTEXT AFTER ==='' @ [CHR 0x0A] @ next_text @ [CHR 0x0A, CHR 0x0A] @
     ''=== TASK ==='' @ [CHR 0x0A] @ goal @ [CHR 0x0A]"

definition user_content :: "string \<Rightarrow> string \<Rightarrow> string \<Rightarrow> string \<Rightarrow> string" where
  "user_content prev_text chunk_txt next_text goal =
     dedent (prompt_template prev_text chunk_txt next_text goal)"

definition annotation_request :: "string \<Rightarrow> model_request" where
  "annotation_request content =
     \<lparr>req_model = ''gpt-4.1-nano-2025-04-14'',
      req_input = [(''system'', SYSTEM_PROMPT), (''user'', content)],
      req_text_format = ''Annotation''\<rparr>"

definition none_has_no_json :: exc where
  "none_has_no_json =
     Exception ([CHR 0x27] @ ''NoneType'' @ [CHR 0x27] @ '' object has no attribute '' @ [CHR 0x27] @ ''json'' @ [CHR 0x27])"

text \<open>
  The body of the \<open>try\<close> for the chunk found in \<open>CHUNKS\<close>: the events it gets to, and the
  exception that ends it, if any.
\<close>

definition ws_try :: "ws_env \<Rightarrow> store \<Rightarrow> int \<Rightarrow> chunk \<Rightarrow> (string \<rightharpoonup> string) \<Rightarrow> event list \<times> exc option" where
  "ws_try env s chunk_id c qp =
     (let goal = query_get qp ''goal'' default_goal in
      case py_int (query_get qp ''max_tokens'' ''256'') of
        Inl e \<Rightarrow> ([], Some e)
      | Inr max_out \<Rightarrow>
     (case get_adjacent_texts s chunk_id of
        Inl e \<Rightarrow> ([], Some e)
      | Inr (prev_text, next_text) \<Rightarrow>
          (let content = user_content prev_text (chunk_text c) next_text goal;
               request = annotation_request content
           in (case responses_parse env request of
                 Inl e \<Rightarrow> ([Model_call request], Some e)
               | Inr None \<Rightarrow> ([Model_call request], Some none_has_no_json)
               | Inr (Some a) \<Rightarrow>
                   (case send_text_raises env (annotation_json env a) of
                      Some e \<Rightarrow> ([Model_call request], Some e)
                    | None \<Rightarrow>
                        ([Model_call request, Send_text (annotation_json env a), Close 1000 None], None))))))"

text \<open>
  The handler.  It reads the stores and returns them as they are after it: the first
  component is the store after the session, the second the events of the session.
\<close>

definition ws_annotations :: "ws_env \<Rightarrow> store \<Rightarrow> int \<Rightarrow> (string \<rightharpoonup> string) \<Rightarrow> store \<times> event list" where
  "ws_annotations env s chunk_id qp =
     (case CHUNKS s chunk_id of
        None \<Rightarrow> (s, [Accept, Close 4000 None])
      | Some c \<Rightarrow>
          (case ws_try env s chunk_id c qp of
             (evs, None) \<Rightarrow> (s, Accept # evs)
           | (evs, Some WebSocketDisconnect) \<Rightarrow> (s, Accept # evs)
           | (evs, Some (Exception m)) \<Rightarrow> (s, Accept # evs @ [Close 4001 (Some m)])))"

text \<open>The number of calls of the model capability in a session.\<close>

definition model_calls :: "event list \<Rightarrow> nat" where
  "model_calls evs = length (filter (\<lambda>e. case e of Model_call _ \<Rightarrow> True | _ \<Rightarrow> False) evs)"

section \<open>Notions for the properties\<close>

subsection \<open>Reachable stores\<close>

text \<open>
  The stores that the program can get to: the empty ones at start-up, and the ones after an
  ingest call or a websocket session from a store it can get to, whatever the collaborators do.
\<close>

inductive reachable :: "store \<Rightarrow> bool" where
  reachable_init: "reachable init_store"
| reachable_ingest: "reachable s \<Longrightarrow> reachable (fst (ingest env s u))"
| reachable_session: "reachable s \<Longrightarrow> reachable (fst (ws_annotations wenv s chunk_id qp))"

text \<open>
  A sequence of ingest calls, each with the collaborators as they are at that call and its
  URL, and the results of the calls in order.
\<close>

fun ingest_all :: "store \<Rightarrow> (ingest_env \<times> string) list \<Rightarrow> store \<times> (ingest_error + ingest_response) list" where
  "ingest_all s [] = (s, [])"
| "ingest_all s ((env, u) # calls) =
     (case ingest env s u of (s1, r) \<Rightarrow>
        (case ingest_all s1 calls of (s2, rs) \<Rightarrow> (s2, r # rs)))"

text \<open>The responses of the calls that succeeded.\<close>

fun responses :: "(ingest_error + ingest_response) list \<Rightarrow> ingest_response list" where
  "responses [] = []"
| "responses (Inl e # rs) = responses rs"
| "responses (Inr r # rs) = r # responses rs"

text \<open>
  The invariant of the stores: the identifiers in use are those below the counters, the
  chunk list of a book has no identifier twice and only identifiers of chunks that point
  back to the book, and every annotation slot is as ingest left it.
\<close>

definition store_inv :: "store \<Rightarrow> bool" where
  "store_inv s \<longleftrightarrow>
     1 \<le> book_id_counter s \<and> 1 \<le> chunk_id_counter s \<and>
     dom (BOOKS s) = {1..<book_id_counter s} \<and>
     dom (CHUNKS s) = {1..<chunk_id_counter s} \<and>
     (\<forall>bid b. BOOKS s bid = Some b \<longrightarrow>
        distinct (book_chunks b) \<and>
        (\<forall>cid\<in>set (book_chunks b). \<exists>c. CHUNKS s cid = Some c \<and> chunk_book_id c = bid)) \<and>
     (\<forall>cid c. CHUNKS s cid = Some c \<longrightarrow> chunk_annotation c = '''')"

text \<open>The record that the loop of \<open>ingest\<close> stores for a chunk text.\<close>

definition new_chunk :: "int \<Rightarrow> string \<Rightarrow> chunk" where
  "new_chunk bid t = \<lparr>chunk_book_id = bid, chunk_text = t, chunk_annotation = ''''\<rparr>"

subsection \<open>Lines of the prompt\<close>

text \<open>
  No line of the string (between two newlines, or an end of the string) is made of spaces and
  tabs only.
\<close>

definition no_whitespace_only_line :: "string \<Rightarrow> bool" where
  "no_whitespace_only_line x \<longleftrightarrow> list_all (\<lambda>l. \<not> whitespace_only_line l) (split_newline x)"

text \<open>
  A line of the kind the f-string of the prompt has around its fields: no newline in it, and a
  first character that is neither a space nor a tab.
\<close>

definition fixed_line :: "string \<Rightarrow> bool" where
  "fixed_line l \<longleftrightarrow> CHR 0x0A \<notin> set l \<and> l \<noteq> [] \<and> \<not> is_blank (hd l)"

subsection \<open>Test doubles\<close>

text \<open>
  Collaborators of a session (one that answers, one whose model call times out), a store with
  one book of three chunks, collaborators of \<open>ingest\<close> (working, with the network down, with
  the tokenizer down) and a sequence of three ingest calls, for the concrete instances of the
  theorems below.
\<close>

definition stub_annotation :: annotation where
  "stub_annotation = \<lparr>summary = ''...'', vocabs = []\<rparr>"

definition stub_ws_env :: ws_env where
  "stub_ws_env = \<lparr>responses_parse = (\<lambda>_. Inr (Some stub_annotation)),
                  annotation_json = summary,
                  send_text_raises = (\<lambda>_. None)\<rparr>"

definition failing_ws_env :: ws_env where
  "failing_ws_env = stub_ws_env\<lparr>responses_parse := (\<lambda>_. Inl (Exception ''Request timed out.''))\<rparr>"

definition demo_store :: store where
  "demo_store =
     \<lparr>book_id_counter = 2, chunk_id_counter = 4,
      BOOKS = [1 \<mapsto> \<lparr>book_url = ''http://x/b.txt'', book_title = ''b.txt'', book_chunks = [1, 2, 3]\<rparr>],
      CHUNKS = [1 \<mapsto> \<lparr>chunk_book_id = 1, chunk_text = ''alpha'', chunk_annotation = ''''\<rparr>,
                2 \<mapsto> \<lparr>chunk_book_id = 1, chunk_text = ''beta'', chunk_annotation = ''''\<rparr>,
                3 \<mapsto> \<lparr>chunk_book_id = 1, chunk_text = ''gamma'', chunk_annotation = ''''\<rparr>]\<rparr>"

definition demo_ingest_env :: ingest_env where
  "demo_ingest_env =
     \<lparr>http_get = (\<lambda>_. Some \<lparr>status_code = 200, content_type = Some ''text/plain; charset=utf-8'',
                               response_text = ''alpha beta gamma''\<rparr>),
      recursive_splitter = (\<lambda>_ _ _ _. Some [''alpha'', ''beta'', ''gamma''])\<rparr>"

definition offline_env :: ingest_env where
  "offline_env = demo_ingest_env\<lparr>http_get := (\<lambda>_. None)\<rparr>"

definition splitter_down_env :: ingest_env where
  "splitter_down_env = demo_ingest_env\<lparr>recursive_splitter := (\<lambda>_ _ _ _. None)\<rparr>"

definition demo_calls :: "(ingest_env \<times> string) list" where
  "demo_calls = [(demo_ingest_env, ''http://x/b.txt''), (offline_env, ''http://x/c.txt''),
                 (demo_ingest_env, ''http://x/d.txt'')]"



section \<open>Properties of the cleanup\<close>













lemma strip_trimmed:
  "strip s = [] \<or> (\<not> py_isspace (hd (strip s)) \<and> \<not> py_isspace (last (strip s)))"
proof (cases "strip s = []")
  case True
  then show ?thesis by simp
next
  case False
  define a where "a = dropWhile py_isspace s"
  define b where "b = dropWhile py_isspace (rev a)"
  have st: "strip s = rev b" by (simp add: strip_def a_def b_def)
  have b: "b \<noteq> []" using False st by simp
  then have hb: "\<not> py_isspace (hd b)" unfolding b_def by (rule hd_dropWhile)
  have l: "\<not> py_isspace (last (strip s))" using hb b st by (simp add: last_rev)
  have a: "a \<noteq> []" using b by (auto simp: b_def)
  then have ha: "\<not> py_isspace (hd a)" unfolding a_def by (rule hd_dropWhile)
  obtain x xs where ax: "a = x # xs" using a by (cases a) auto
  then have nx: "\<not> py_isspace x" using ha by simp
  have "rev b = x # drop 1 (rev b)"
  proof -
    have "rev a = rev xs @ [x]" using ax by simp
    then have "b = dropWhile py_isspace (rev xs) @ [x]"
      using nx by (simp add: b_def dropWhile_append)
    then show ?thesis by simp
  qed
  then have "hd (strip s) = x" using st by (metis list.sel(1))
  then show ?thesis using nx l by simp
qed




section \<open>Properties of the ingest route\<close>

lemma store_chunks_spec:
  assumes "BOOKS s bid = Some b"
  shows "\<exists>s'. store_chunks bid s ts = (s', None) \<and>
           book_id_counter s' = book_id_counter s \<and>
           chunk_id_counter s' = chunk_id_counter s + int (length ts) \<and>
           BOOKS s' = (BOOKS s)(bid \<mapsto> b\<lparr>book_chunks := book_chunks b @
                         [chunk_id_counter s..chunk_id_counter s + int (length ts) - 1]\<rparr>) \<and>
           (\<forall>cid. CHUNKS s' cid =
              (if chunk_id_counter s \<le> cid \<and> cid < chunk_id_counter s + int (length ts)
               then Some (new_chunk bid (ts ! nat (cid - chunk_id_counter s)))
               else CHUNKS s cid))"
  using assms
proof (induction ts arbitrary: s b)
  case Nil
  then show ?case by (auto simp: map_upd_triv)
next
  case (Cons t ts)
  let ?c = "chunk_id_counter s"
  let ?b1 = "b\<lparr>book_chunks := book_chunks b @ [?c]\<rparr>"
  let ?s1 = "s\<lparr>chunk_id_counter := ?c + 1, CHUNKS := (CHUNKS s)(?c \<mapsto> new_chunk bid t),
               BOOKS := (BOOKS s)(bid \<mapsto> ?b1)\<rparr>"
  have step: "store_chunks bid s (t # ts) = store_chunks bid ?s1 ts"
    using Cons.prems by (simp add: Let_def new_chunk_def)
  have b1: "BOOKS ?s1 bid = Some ?b1" by simp
  from Cons.IH [OF b1] obtain s' where
    r: "store_chunks bid ?s1 ts = (s', None)"
    and bc: "book_id_counter s' = book_id_counter ?s1"
    and cc: "chunk_id_counter s' = chunk_id_counter ?s1 + int (length ts)"
    and bk: "BOOKS s' = (BOOKS ?s1)(bid \<mapsto> ?b1\<lparr>book_chunks := book_chunks ?b1 @
                         [chunk_id_counter ?s1..chunk_id_counter ?s1 + int (length ts) - 1]\<rparr>)"
    and ck: "\<forall>cid. CHUNKS s' cid =
              (if chunk_id_counter ?s1 \<le> cid \<and> cid < chunk_id_counter ?s1 + int (length ts)
               then Some (new_chunk bid (ts ! nat (cid - chunk_id_counter ?s1)))
               else CHUNKS ?s1 cid)"
    by blast
  have ids: "[?c..?c + int (length (t # ts)) - 1] = ?c # [?c + 1..?c + 1 + int (length ts) - 1]"
    by (subst upto_rec1) (simp_all add: algebra_simps)
  have books: "BOOKS s' = (BOOKS s)(bid \<mapsto> b\<lparr>book_chunks := book_chunks b @
                         [?c..?c + int (length (t # ts)) - 1]\<rparr>)"
    using bk ids by simp
  have chunks: "\<forall>cid. CHUNKS s' cid =
      (if ?c \<le> cid \<and> cid < ?c + int (length (t # ts))
       then Some (new_chunk bid ((t # ts) ! nat (cid - ?c)))
       else CHUNKS s cid)"
  proof
    fix cid
    show "CHUNKS s' cid =
      (if ?c \<le> cid \<and> cid < ?c + int (length (t # ts))
       then Some (new_chunk bid ((t # ts) ! nat (cid - ?c)))
       else CHUNKS s cid)"
    proof (cases "cid = ?c")
      case True
      then show ?thesis using ck by simp
    next
      case False
      have "?c + 1 \<le> cid \<Longrightarrow> (t # ts) ! nat (cid - ?c) = ts ! nat (cid - (?c + 1))"
      proof -
        assume "?c + 1 \<le> cid"
        then have "nat (cid - ?c) = Suc (nat (cid - (?c + 1)))" by simp
        then show ?thesis by simp
      qed
      then show ?thesis using ck False by auto
    qed
  qed
  have res: "store_chunks bid s (t # ts) = (s', None)"
    using step r by (simp only:)
  have bc': "book_id_counter s' = book_id_counter s" using bc by simp
  have cc': "chunk_id_counter s' = ?c + int (length (t # ts))" using cc by simp
  show ?case using res bc' cc' books chunks by blast
qed

lemma ingest_fetch_failed:
  "fetch_gutenberg_text env u = Inl e \<Longrightarrow> ingest env s u = (s, Inl e)"
  by (simp add: ingest_def)

lemma ingest_splitter_failed:
  "fetch_gutenberg_text env u = Inr txt \<Longrightarrow> split_paragraphs env (clean_gutenberg txt) 300 0 = None \<Longrightarrow>
   ingest env s u =
     (s\<lparr>book_id_counter := book_id_counter s + 1,
        BOOKS := (BOOKS s)(book_id_counter s \<mapsto>
                   \<lparr>book_url = u, book_title = basename u, book_chunks = []\<rparr>)\<rparr>,
      Inl Splitter_fault)"
  by (simp add: ingest_def Let_def)

lemma ingest_succeeded:
  assumes "fetch_gutenberg_text env u = Inr txt"
      and "split_paragraphs env (clean_gutenberg txt) 300 0 = Some texts"
  shows "\<exists>s'. ingest env s u =
           (s', Inr \<lparr>resp_book_id = book_id_counter s,
                     resp_chunks = [chunk_id_counter s..chunk_id_counter s + int (length texts) - 1]\<rparr>) \<and>
           book_id_counter s' = book_id_counter s + 1 \<and>
           chunk_id_counter s' = chunk_id_counter s + int (length texts) \<and>
           BOOKS s' = (BOOKS s)(book_id_counter s \<mapsto>
              \<lparr>book_url = u, book_title = basename u,
               book_chunks = [chunk_id_counter s..chunk_id_counter s + int (length texts) - 1]\<rparr>) \<and>
           (\<forall>cid. CHUNKS s' cid =
              (if chunk_id_counter s \<le> cid \<and> cid < chunk_id_counter s + int (length texts)
               then Some (new_chunk (book_id_counter s) (texts ! nat (cid - chunk_id_counter s)))
               else CHUNKS s cid))"
proof -
  let ?bid = "book_id_counter s"
  let ?b = "\<lparr>book_url = u, book_title = basename u, book_chunks = []\<rparr>"
  let ?s1 = "s\<lparr>book_id_counter := ?bid + 1, BOOKS := (BOOKS s)(?bid \<mapsto> ?b)\<rparr>"
  have "BOOKS ?s1 ?bid = Some ?b" by simp
  from store_chunks_spec [OF this, of texts] obtain s' where
    r: "store_chunks ?bid ?s1 texts = (s', None)"
    and bc: "book_id_counter s' = book_id_counter ?s1"
    and cc: "chunk_id_counter s' = chunk_id_counter ?s1 + int (length texts)"
    and bk: "BOOKS s' = (BOOKS ?s1)(?bid \<mapsto> ?b\<lparr>book_chunks := book_chunks ?b @
                         [chunk_id_counter ?s1..chunk_id_counter ?s1 + int (length texts) - 1]\<rparr>)"
    and ck: "\<forall>cid. CHUNKS s' cid =
              (if chunk_id_counter ?s1 \<le> cid \<and> cid < chunk_id_counter ?s1 + int (length texts)
               then Some (new_chunk ?bid (texts ! nat (cid - chunk_id_counter ?s1)))
               else CHUNKS ?s1 cid)"
    by blast
  have "ingest env s u =
           (s', Inr \<lparr>resp_book_id = ?bid,
                     resp_chunks = [chunk_id_counter s..chunk_id_counter s + int (length texts) - 1]\<rparr>)"
    using assms r bk by (simp add: ingest_def Let_def)
  then show ?thesis using bc cc bk ck by simp
qed

lemma stored_chunks_nth:
  assumes ck: "\<forall>cid. CHUNKS s' cid =
              (if c \<le> cid \<and> cid < c + int (length texts)
               then Some (new_chunk bid (texts ! nat (cid - c)))
               else CHUNKS s cid)"
  shows "map (CHUNKS s') [c..c + int (length texts) - 1] = map (\<lambda>t. Some (new_chunk bid t)) texts"
proof (rule nth_equalityI)
  show "length (map (CHUNKS s') [c..c + int (length texts) - 1]) =
        length (map (\<lambda>t. Some (new_chunk bid t)) texts)"
    by simp
next
  fix i
  assume "i < length (map (CHUNKS s') [c..c + int (length texts) - 1])"
  then have i: "i < length texts" by simp
  then have "[c..c + int (length texts) - 1] ! i = c + int i" by simp
  moreover have "CHUNKS s' (c + int i) = Some (new_chunk bid (texts ! i))"
    using ck i by simp
  ultimately show "map (CHUNKS s') [c..c + int (length texts) - 1] ! i =
      map (\<lambda>t. Some (new_chunk bid t)) texts ! i"
    using i by simp
qed

lemma fetch_fails_iff:
  "(\<exists>e. fetch_gutenberg_text env u = Inl e) \<longleftrightarrow>
     (case http_get env u of
        None \<Rightarrow> True
      | Some r \<Rightarrow> \<not> (200 \<le> status_code r \<and> status_code r \<le> 299) \<or>
                  \<not> contains (case content_type r of None \<Rightarrow> [] | Some ct \<Rightarrow> ct) ''text'')"
  by (auto simp: fetch_gutenberg_text_def split: option.splits)

lemma demo_fetch: "fetch_gutenberg_text demo_ingest_env u = Inr ''alpha beta gamma''"
  by (simp add: fetch_gutenberg_text_def demo_ingest_env_def startswith_def)

lemma demo_split: "split_paragraphs demo_ingest_env t 300 0 = Some [''alpha'', ''beta'', ''gamma'']"
  by (simp add: split_paragraphs_def demo_ingest_env_def)

lemma offline_fetch: "fetch_gutenberg_text offline_env u = Inl Transport_fault"
  by (simp add: fetch_gutenberg_text_def offline_env_def demo_ingest_env_def)

lemma splitter_down_fetch: "fetch_gutenberg_text splitter_down_env u = Inr ''alpha beta gamma''"
  by (simp add: fetch_gutenberg_text_def splitter_down_env_def demo_ingest_env_def startswith_def)

lemma splitter_down_split: "split_paragraphs splitter_down_env t 300 0 = None"
  by (simp add: split_paragraphs_def splitter_down_env_def demo_ingest_env_def)


text \<open>
  Claim C6, as amended.  When \<open>fetch_gutenberg_text\<close> fails (a transport fault, a status that
  is not 2xx, a content type without \<open>text\<close>: lemma \<open>fetch_fails_iff\<close>), the store and the
  counters after the call are those before it.  When the fetch and the splitter both
  succeed, the book record and a chunk record for every chunk text are stored, under the
  identifiers of the response.
\<close>

theorem ingest_fetch_failure_or_full:
  "(fetch_gutenberg_text env u = Inl e \<longrightarrow> ingest env s u = (s, Inl e)) \<and>
   (fetch_gutenberg_text env u = Inr fetched \<and>
    split_paragraphs env (clean_gutenberg fetched) 300 0 = Some texts \<longrightarrow>
      (\<exists>s'. ingest env s u =
               (s', Inr \<lparr>resp_book_id = book_id_counter s,
                         resp_chunks = [chunk_id_counter s..chunk_id_counter s + int (length texts) - 1]\<rparr>) \<and>
             BOOKS s' (book_id_counter s) =
               Some \<lparr>book_url = u, book_title = basename u,
                     book_chunks = [chunk_id_counter s..chunk_id_counter s + int (length texts) - 1]\<rparr> \<and>
             map (CHUNKS s') [chunk_id_counter s..chunk_id_counter s + int (length texts) - 1] =
               map (\<lambda>t. Some \<lparr>chunk_book_id = book_id_counter s, chunk_text = t, chunk_annotation = ''''\<rparr>)
                 texts))"
proof (intro conjI impI)
  assume "fetch_gutenberg_text env u = Inl e"
  then show "ingest env s u = (s, Inl e)" by (rule ingest_fetch_failed)
next
  assume h: "fetch_gutenberg_text env u = Inr fetched \<and>
    split_paragraphs env (clean_gutenberg fetched) 300 0 = Some texts"
  let ?ids = "[chunk_id_counter s..chunk_id_counter s + int (length texts) - 1]"
  from h have h1: "fetch_gutenberg_text env u = Inr fetched"
    and h2: "split_paragraphs env (clean_gutenberg fetched) 300 0 = Some texts" by simp_all
  from ingest_succeeded [OF h1 h2, of s] obtain s' where
    r: "ingest env s u = (s', Inr \<lparr>resp_book_id = book_id_counter s, resp_chunks = ?ids\<rparr>)"
    and bk: "BOOKS s' = (BOOKS s)(book_id_counter s \<mapsto>
              \<lparr>book_url = u, book_title = basename u, book_chunks = ?ids\<rparr>)"
    and ck: "\<forall>cid. CHUNKS s' cid =
              (if chunk_id_counter s \<le> cid \<and> cid < chunk_id_counter s + int (length texts)
               then Some (new_chunk (book_id_counter s) (texts ! nat (cid - chunk_id_counter s)))
               else CHUNKS s cid)"
    by blast
  have m: "map (CHUNKS s') ?ids =
      map (\<lambda>t. Some \<lparr>chunk_book_id = book_id_counter s, chunk_text = t, chunk_annotation = ''''\<rparr>) texts"
    using stored_chunks_nth [OF ck] by (simp add: new_chunk_def)
  have b: "BOOKS s' (book_id_counter s) =
      Some \<lparr>book_url = u, book_title = basename u, book_chunks = ?ids\<rparr>"
    using bk by simp
  show "\<exists>s'. ingest env s u = (s', Inr \<lparr>resp_book_id = book_id_counter s, resp_chunks = ?ids\<rparr>) \<and>
             BOOKS s' (book_id_counter s) =
               Some \<lparr>book_url = u, book_title = basename u, book_chunks = ?ids\<rparr> \<and>
             map (CHUNKS s') ?ids =
               map (\<lambda>t. Some \<lparr>chunk_book_id = book_id_counter s, chunk_text = t, chunk_annotation = ''''\<rparr>)
                 texts"
    by (rule exI [of _ s']) (intro conjI r b m)
qed

theorem ingest_fetch_failure_or_full_witness:
  "fetch_gutenberg_text offline_env ''http://x/b.txt'' = Inl Transport_fault \<and>
   ingest offline_env demo_store ''http://x/b.txt'' = (demo_store, Inl Transport_fault) \<and>
   fetch_gutenberg_text demo_ingest_env ''http://x/b.txt'' = Inr ''alpha beta gamma'' \<and>
   split_paragraphs demo_ingest_env (clean_gutenberg ''alpha beta gamma'') 300 0 =
     Some [''alpha'', ''beta'', ''gamma''] \<and>
   snd (ingest demo_ingest_env init_store ''http://x/b.txt'') =
     Inr \<lparr>resp_book_id = 1, resp_chunks = [1, 2, 3]\<rparr>"
proof -
  have a: "fetch_gutenberg_text offline_env ''http://x/b.txt'' = Inl Transport_fault"
    by (rule offline_fetch)
  have b: "fetch_gutenberg_text demo_ingest_env ''http://x/b.txt'' = Inr ''alpha beta gamma''"
    by (rule demo_fetch)
  have c: "split_paragraphs demo_ingest_env (clean_gutenberg ''alpha beta gamma'') 300 0 =
     Some [''alpha'', ''beta'', ''gamma'']"
    by (rule demo_split)
  have ids: "[1..(3::int)] = [1, 2, 3]" by (simp add: upto_rec1)
  have "ingest offline_env demo_store ''http://x/b.txt'' = (demo_store, Inl Transport_fault)"
    using a ingest_fetch_failure_or_full
      [where env = offline_env and u = "''http://x/b.txt''" and e = Transport_fault and s = demo_store]
    by blast
  moreover have "snd (ingest demo_ingest_env init_store ''http://x/b.txt'') =
     Inr \<lparr>resp_book_id = 1, resp_chunks = [1, 2, 3]\<rparr>"
    using b c ingest_fetch_failure_or_full
      [where env = demo_ingest_env and u = "''http://x/b.txt''" and s = init_store
         and fetched = "''alpha beta gamma''" and texts = "[''alpha'', ''beta'', ''gamma'']"]
      ids
    by (auto simp: init_store_def)
  ultimately show ?thesis using a b c by simp
qed

text \<open>
  Claim C6 as stated fails for a failure of the splitter: the book record is made before
  the splitter is called, and stays.
\<close>

theorem ingest_splitter_failure_leaves_book:
  "ingest splitter_down_env init_store ''http://x/b.txt'' =
     (init_store\<lparr>book_id_counter := 2,
        BOOKS := [1 \<mapsto> \<lparr>book_url = ''http://x/b.txt'', book_title = ''b.txt'', book_chunks = []\<rparr>]\<rparr>,
      Inl Splitter_fault) \<and>
   BOOKS (fst (ingest splitter_down_env init_store ''http://x/b.txt'')) 1 \<noteq> None"
  using ingest_splitter_failed [where env = splitter_down_env and u = "''http://x/b.txt''"
      and s = init_store, OF splitter_down_fetch splitter_down_split]
  by (simp add: init_store_def basename_def)

section \<open>Properties of the stores\<close>

lemma ws_annotations_store: "fst (ws_annotations env s chunk_id qp) = s"
  by (auto simp: ws_annotations_def split: option.splits prod.splits exc.splits)

lemma store_inv_init: "store_inv init_store"
  by (simp add: store_inv_def init_store_def)

lemma store_inv_new_book:
  assumes "store_inv s"
  shows "store_inv (s\<lparr>book_id_counter := book_id_counter s + 1,
        BOOKS := (BOOKS s)(book_id_counter s \<mapsto>
                   \<lparr>book_url = u, book_title = ti, book_chunks = []\<rparr>)\<rparr>)"
proof -
  have fresh: "BOOKS s (book_id_counter s) = None"
    using assms by (auto simp: store_inv_def)
  have "{1..<book_id_counter s + 1} = insert (book_id_counter s) {1..<book_id_counter s}"
    using assms by (auto simp: store_inv_def)
  then show ?thesis
    using assms fresh by (auto simp: store_inv_def)
qed

lemma store_inv_ingest_succeeded:
  assumes inv: "store_inv s"
      and bc: "book_id_counter s' = book_id_counter s + 1"
      and cc: "chunk_id_counter s' = chunk_id_counter s + int (length texts)"
      and bk: "BOOKS s' = (BOOKS s)(book_id_counter s \<mapsto>
              \<lparr>book_url = u, book_title = ti,
               book_chunks = [chunk_id_counter s..chunk_id_counter s + int (length texts) - 1]\<rparr>)"
      and ck: "\<forall>cid. CHUNKS s' cid =
              (if chunk_id_counter s \<le> cid \<and> cid < chunk_id_counter s + int (length texts)
               then Some (new_chunk (book_id_counter s) (texts ! nat (cid - chunk_id_counter s)))
               else CHUNKS s cid)"
  shows "store_inv s'"
proof -
  have fresh: "BOOKS s (book_id_counter s) = None"
    using inv by (auto simp: store_inv_def)
  have old_chunk: "\<And>cid c. CHUNKS s cid = Some c \<Longrightarrow> cid < chunk_id_counter s"
    using inv by (auto simp: store_inv_def)
  have d1: "dom (BOOKS s') = {1..<book_id_counter s'}"
    using inv bc bk by (auto simp: store_inv_def)
  have d2: "dom (CHUNKS s') = {1..<chunk_id_counter s'}"
  proof (rule set_eqI)
    fix cid
    have "dom (CHUNKS s) = {1..<chunk_id_counter s}" "1 \<le> chunk_id_counter s"
      using inv by (auto simp: store_inv_def)
    then have "cid \<in> dom (CHUNKS s) \<longleftrightarrow> 1 \<le> cid \<and> cid < chunk_id_counter s" by auto
    then show "cid \<in> dom (CHUNKS s') \<longleftrightarrow> cid \<in> {1..<chunk_id_counter s'}"
      using ck cc \<open>1 \<le> chunk_id_counter s\<close> by (auto simp: dom_def)
  qed
  have books: "\<forall>bid b. BOOKS s' bid = Some b \<longrightarrow>
        distinct (book_chunks b) \<and>
        (\<forall>cid\<in>set (book_chunks b). \<exists>c. CHUNKS s' cid = Some c \<and> chunk_book_id c = bid)"
  proof (intro allI impI)
    fix bid b
    assume b: "BOOKS s' bid = Some b"
    show "distinct (book_chunks b) \<and>
        (\<forall>cid\<in>set (book_chunks b). \<exists>c. CHUNKS s' cid = Some c \<and> chunk_book_id c = bid)"
    proof (cases "bid = book_id_counter s")
      case True
      then have "book_chunks b = [chunk_id_counter s..chunk_id_counter s + int (length texts) - 1]"
        using b bk by auto
      then show ?thesis using ck True by (auto simp: new_chunk_def)
    next
      case False
      then have old: "BOOKS s bid = Some b" using b bk by auto
      then have "distinct (book_chunks b)"
        and m: "\<forall>cid\<in>set (book_chunks b). \<exists>c. CHUNKS s cid = Some c \<and> chunk_book_id c = bid"
        using inv by (auto simp: store_inv_def)
      moreover have "\<forall>cid\<in>set (book_chunks b). CHUNKS s' cid = CHUNKS s cid"
        using m old_chunk ck by fastforce
      ultimately show ?thesis by simp
    qed
  qed
  have ann: "\<forall>cid c. CHUNKS s' cid = Some c \<longrightarrow> chunk_annotation c = ''''"
    using inv ck by (auto simp: store_inv_def new_chunk_def split: if_splits)
  show ?thesis
    unfolding store_inv_def using inv bc cc d1 d2 books ann by (simp add: store_inv_def)
qed

lemma store_inv_ingest: "store_inv s \<Longrightarrow> store_inv (fst (ingest env s u))"
proof (cases "fetch_gutenberg_text env u")
  case (Inl e)
  assume "store_inv s"
  then show ?thesis using ingest_fetch_failed [OF Inl] by simp
next
  case (Inr fetched)
  assume inv: "store_inv s"
  show ?thesis
  proof (cases "split_paragraphs env (clean_gutenberg fetched) 300 0")
    case None
    show ?thesis using ingest_splitter_failed [OF Inr None, of s] store_inv_new_book [OF inv] by simp
  next
    case (Some texts)
    from ingest_succeeded [OF Inr Some, of s] obtain s' where
      "ingest env s u =
           (s', Inr \<lparr>resp_book_id = book_id_counter s,
                     resp_chunks = [chunk_id_counter s..chunk_id_counter s + int (length texts) - 1]\<rparr>)"
      "book_id_counter s' = book_id_counter s + 1"
      "chunk_id_counter s' = chunk_id_counter s + int (length texts)"
      "BOOKS s' = (BOOKS s)(book_id_counter s \<mapsto>
              \<lparr>book_url = u, book_title = basename u,
               book_chunks = [chunk_id_counter s..chunk_id_counter s + int (length texts) - 1]\<rparr>)"
      "\<forall>cid. CHUNKS s' cid =
              (if chunk_id_counter s \<le> cid \<and> cid < chunk_id_counter s + int (length texts)
               then Some (new_chunk (book_id_counter s) (texts ! nat (cid - chunk_id_counter s)))
               else CHUNKS s cid)"
      by blast
    then show ?thesis using store_inv_ingest_succeeded [OF inv, of s' texts u "basename u"] by simp
  qed
qed

lemma reachable_store_inv: "reachable s \<Longrightarrow> store_inv s"
  by (induction rule: reachable.induct)
     (simp_all add: store_inv_init store_inv_ingest ws_annotations_store)









lemma upto_append: "(i::int) \<le> j \<Longrightarrow> j \<le> k \<Longrightarrow> [i..j - 1] @ [j..k - 1] = [i..k - 1]"
proof -
  assume a: "i \<le> j" "j \<le> k"
  show ?thesis
  proof (cases "j = k")
    case True
    then show ?thesis by simp
  next
    case False
    then have "j \<le> k - 1" using a by simp
    then show ?thesis using upto_split1 [of i j "k - 1"] a by simp
  qed
qed

lemma ingest_step:
  assumes inv: "store_inv s" and r: "ingest env s u = (s', r)"
  shows "store_inv s' \<and> book_id_counter s \<le> book_id_counter s' \<and>
     chunk_id_counter s \<le> chunk_id_counter s' \<and>
     (case r of
        Inr resp \<Rightarrow>
          resp_book_id resp = book_id_counter s \<and> book_id_counter s' = book_id_counter s + 1 \<and>
          resp_chunks resp = [chunk_id_counter s..chunk_id_counter s' - 1]
      | Inl e \<Rightarrow>
          chunk_id_counter s' = chunk_id_counter s \<and>
          (if e = Splitter_fault then book_id_counter s' = book_id_counter s + 1
           else book_id_counter s' = book_id_counter s))"
proof -
  have inv': "store_inv s'" using store_inv_ingest [OF inv, of env u] r by simp
  show ?thesis
  proof (cases "fetch_gutenberg_text env u")
    case (Inl e)
    have "e \<noteq> Splitter_fault"
      using Inl by (auto simp: fetch_gutenberg_text_def split: option.splits if_splits)
    then show ?thesis using ingest_fetch_failed [OF Inl, of s] r inv by auto
  next
    case (Inr fetched)
    show ?thesis
    proof (cases "split_paragraphs env (clean_gutenberg fetched) 300 0")
      case None
      show ?thesis using ingest_splitter_failed [OF Inr None, of s] r inv' by auto
    next
      case (Some texts)
      from ingest_succeeded [OF Inr Some, of s] r inv' show ?thesis by auto
    qed
  qed
qed

lemma ingest_all_ids:
  assumes "store_inv s" and "ingest_all s calls = (s', rs)"
  shows "store_inv s' \<and> book_id_counter s \<le> book_id_counter s' \<and>
     chunk_id_counter s \<le> chunk_id_counter s' \<and>
     concat (map resp_chunks (responses rs)) = [chunk_id_counter s..chunk_id_counter s' - 1] \<and>
     sorted_wrt (<) (map resp_book_id (responses rs)) \<and>
     set (map resp_book_id (responses rs)) \<subseteq> {book_id_counter s..<book_id_counter s'} \<and>
     (Inl Splitter_fault \<notin> set rs \<longrightarrow>
        map resp_book_id (responses rs) = [book_id_counter s..book_id_counter s' - 1])"
  using assms
proof (induction calls arbitrary: s s' rs)
  case Nil
  then show ?case by simp
next
  case (Cons call calls)
  obtain env u where call: "call = (env, u)" by (cases call)
  obtain s1 r where one: "ingest env s u = (s1, r)" by (cases "ingest env s u")
  obtain s2 rs2 where more: "ingest_all s1 calls = (s2, rs2)" by (cases "ingest_all s1 calls")
  have res: "s' = s2" "rs = r # rs2" using Cons.prems(2) call one more by simp_all
  note st = ingest_step [OF Cons.prems(1) one]
  then have inv1: "store_inv s1" by blast
  note ih = Cons.IH [OF inv1 more]
  have b: "book_id_counter s \<le> book_id_counter s1" "book_id_counter s1 \<le> book_id_counter s2"
    and c: "chunk_id_counter s \<le> chunk_id_counter s1" "chunk_id_counter s1 \<le> chunk_id_counter s2"
    using st ih by simp_all
  show ?case
  proof (cases r)
    case (Inl e)
    have cs: "chunk_id_counter s1 = chunk_id_counter s" using st Inl by simp
    have bs: "e \<noteq> Splitter_fault \<Longrightarrow> book_id_counter s1 = book_id_counter s" using st Inl by simp
    show ?thesis using ih b c cs bs res Inl by auto
  next
    case (Inr resp)
    have rb: "resp_book_id resp = book_id_counter s" "book_id_counter s1 = book_id_counter s + 1"
      and rc: "resp_chunks resp = [chunk_id_counter s..chunk_id_counter s1 - 1]"
      using st Inr by simp_all
    have chunks: "concat (map resp_chunks (responses rs)) = [chunk_id_counter s..chunk_id_counter s' - 1]"
      using ih rc res Inr upto_append [OF c] by simp
    have sorted: "sorted_wrt (<) (map resp_book_id (responses rs))"
      using ih rb res Inr by auto
    have sub: "set (map resp_book_id (responses rs)) \<subseteq> {book_id_counter s..<book_id_counter s'}"
      using ih rb b res Inr by auto
    have full: "Inl Splitter_fault \<notin> set rs \<longrightarrow>
        map resp_book_id (responses rs) = [book_id_counter s..book_id_counter s' - 1]"
    proof
      assume "Inl Splitter_fault \<notin> set rs"
      then have "map resp_book_id (responses rs2) = [book_id_counter s1..book_id_counter s2 - 1]"
        using ih res by simp
      then show "map resp_book_id (responses rs) = [book_id_counter s..book_id_counter s' - 1]"
        using rb b res Inr upto_rec1 [of "book_id_counter s" "book_id_counter s2 - 1"] by simp
    qed
    show ?thesis using ih b c res chunks sorted sub full by simp
  qed
qed

text \<open>
  Claim C8.  After any sequence of ingest calls from start-up: the book identifiers in use
  are exactly 1 up to the book counter, the chunk identifiers exactly 1 up to the chunk
  counter; the chunk identifiers of the successive responses, put end to end, are 1, 2, 3,
  ... in order; the book identifiers of the responses increase strictly, and are 1, 2, 3,
  ... when no call failed in the splitter (a call that does takes a book identifier and
  gives no response).
\<close>

theorem identifiers_sequential:
  "case ingest_all init_store calls of (s, rs) \<Rightarrow>
     dom (BOOKS s) = {1..<book_id_counter s} \<and>
     dom (CHUNKS s) = {1..<chunk_id_counter s} \<and>
     concat (map resp_chunks (responses rs)) = [1..chunk_id_counter s - 1] \<and>
     sorted_wrt (<) (map resp_book_id (responses rs)) \<and>
     set (map resp_book_id (responses rs)) \<subseteq> {1..<book_id_counter s} \<and>
     (Inl Splitter_fault \<notin> set rs \<longrightarrow> map resp_book_id (responses rs) = [1..book_id_counter s - 1])"
proof -
  obtain s rs where r: "ingest_all init_store calls = (s, rs)" by (cases "ingest_all init_store calls")
  from ingest_all_ids [OF store_inv_init r] show ?thesis
    using r by (simp add: store_inv_def init_store_def)
qed

lemma demo_calls_results:
  "snd (ingest_all init_store demo_calls) =
     [Inr \<lparr>resp_book_id = 1, resp_chunks = [1, 2, 3]\<rparr>, Inl Transport_fault,
      Inr \<lparr>resp_book_id = 2, resp_chunks = [4, 5, 6]\<rparr>]"
  by (simp add: demo_calls_def ingest_def demo_fetch demo_split offline_fetch Let_def init_store_def
      split: prod.splits)

theorem identifiers_sequential_witness:
  "Inl Splitter_fault \<notin> set (snd (ingest_all init_store demo_calls)) \<and>
   map resp_book_id (responses (snd (ingest_all init_store demo_calls))) =
     [1..book_id_counter (fst (ingest_all init_store demo_calls)) - 1] \<and>
   concat (map resp_chunks (responses (snd (ingest_all init_store demo_calls)))) =
     [1..chunk_id_counter (fst (ingest_all init_store demo_calls)) - 1] \<and>
   map resp_book_id (responses (snd (ingest_all init_store demo_calls))) = [1, 2] \<and>
   concat (map resp_chunks (responses (snd (ingest_all init_store demo_calls)))) = [1, 2, 3, 4, 5, 6]"
proof -
  obtain s rs where r: "ingest_all init_store demo_calls = (s, rs)"
    by (cases "ingest_all init_store demo_calls")
  have rs: "rs = [Inr \<lparr>resp_book_id = 1, resp_chunks = [1, 2, 3]\<rparr>, Inl Transport_fault,
      Inr \<lparr>resp_book_id = 2, resp_chunks = [4, 5, 6]\<rparr>]"
    using demo_calls_results r by simp
  have nf: "Inl Splitter_fault \<notin> set rs" using rs by simp
  from identifiers_sequential [of demo_calls] r nf
  have b: "map resp_book_id (responses rs) = [1..book_id_counter s - 1]"
    and c: "concat (map resp_chunks (responses rs)) = [1..chunk_id_counter s - 1]"
    by simp_all
  have b2: "map resp_book_id (responses rs) = [1, 2]" using rs by simp
  have c2: "concat (map resp_chunks (responses rs)) = [1, 2, 3, 4, 5, 6]" using rs by simp
  show ?thesis using r nf b c b2 c2 by simp
qed

text \<open>
  No step of the program writes an annotation slot after \<open>ingest\<close> has made the chunk: in
  every store that the program can get to, every slot holds the empty string.
\<close>

lemma annotation_slots_as_ingested:
  "reachable s \<Longrightarrow> CHUNKS s cid = Some c \<Longrightarrow> chunk_annotation c = []"
  using reachable_store_inv by (auto simp: store_inv_def)

section \<open>Properties of the prompt\<close>

lemma split_newline_nonempty: "split_newline x \<noteq> []"
  by (induction x) (auto split: list.splits)

lemma split_newline_append:
  "split_newline (a @ CHR 0x0A # b) = split_newline a @ split_newline b"
proof (induction a)
  case Nil
  then show ?case by simp
next
  case (Cons c a)
  obtain l ls where s: "split_newline a = l # ls"
    using split_newline_nonempty [of a] by (cases "split_newline a") auto
  show ?case using Cons s by simp
qed

lemma split_newline_line: "CHR 0x0A \<notin> set l \<Longrightarrow> split_newline l = [l]"
  by (induction l) auto

lemma join_newline_append:
  "xs \<noteq> [] \<Longrightarrow> ys \<noteq> [] \<Longrightarrow> join_newline (xs @ ys) = join_newline xs @ CHR 0x0A # join_newline ys"
proof (induction xs rule: join_newline.induct)
  case 1
  then show ?case by simp
next
  case (2 l)
  then show ?case by (cases ys) auto
next
  case (3 l m ls)
  then show ?case by simp
qed

lemma join_split_newline: "join_newline (split_newline x) = x"
proof (induction x)
  case Nil
  then show ?case by simp
next
  case (Cons c x)
  obtain l ls where s: "split_newline x = l # ls"
    using split_newline_nonempty [of x] by (cases "split_newline x") auto
  show ?case
  proof (cases "c = CHR 0x0A")
    case True
    then show ?thesis using Cons s by simp
  next
    case False
    then show ?thesis using Cons s by (cases ls) auto
  qed
qed

lemma whitespace_only_sub_append:
  "whitespace_only_sub (a @ CHR 0x0A # b) =
     whitespace_only_sub a @ CHR 0x0A # whitespace_only_sub b"
  by (simp add: whitespace_only_sub_def split_newline_append join_newline_append split_newline_nonempty)

lemma whitespace_only_sub_line:
  "CHR 0x0A \<notin> set l \<Longrightarrow> \<not> whitespace_only_line l \<Longrightarrow> whitespace_only_sub l = l"
  by (simp add: whitespace_only_sub_def split_newline_line)

lemma whitespace_only_sub_id:
  assumes "no_whitespace_only_line x"
  shows "whitespace_only_sub x = x"
proof -
  have "map (\<lambda>l. if whitespace_only_line l then [] else l) (split_newline x) = split_newline x"
    using assms by (simp add: no_whitespace_only_line_def list_all_iff map_idI)
  then show ?thesis by (simp add: whitespace_only_sub_def join_split_newline)
qed

lemma foldl_update_margin_empty: "foldl update_margin (Some []) xs = Some []"
  by (induction xs) (simp_all add: update_margin_def startswith_def)

lemma dedent_first_line_unindented:
  assumes l: "CHR 0x0A \<notin> set l" "l \<noteq> []" "\<not> is_blank (hd l)"
    and w: "whitespace_only_sub t = l @ CHR 0x0A # r"
  shows "dedent t = whitespace_only_sub t"
proof -
  have tw: "takeWhile is_blank l = []" and dw: "dropWhile is_blank l \<noteq> []"
    using l by (cases l; simp)+
  have "leading_whitespace_findall (l @ CHR 0x0A # r) = [] # leading_whitespace_findall r"
    using l tw dw
    by (simp add: leading_whitespace_findall_def split_newline_append split_newline_line)
  then have "foldl update_margin None (leading_whitespace_findall (whitespace_only_sub t)) = Some []"
    using w by (simp add: update_margin_def foldl_update_margin_empty)
  then show ?thesis by (simp add: dedent_def Let_def)
qed

lemma whitespace_only_sub_Nil: "whitespace_only_sub [] = []"
  by (simp add: whitespace_only_sub_def whitespace_only_line_def)

lemma whitespace_only_sub_newline:
  "whitespace_only_sub (CHR 0x0A # b) = CHR 0x0A # whitespace_only_sub b"
  using whitespace_only_sub_append [of "[]" b] by (simp add: whitespace_only_sub_Nil)

lemma fixed_line_sub: "fixed_line l \<Longrightarrow> whitespace_only_sub l = l"
  by (rule whitespace_only_sub_line)
     (auto simp: fixed_line_def whitespace_only_line_def list_all_iff hd_in_set)

lemma whitespace_only_sub_frame:
  assumes "fixed_line l1" "fixed_line l2" "fixed_line l3" "fixed_line l4" "fixed_line l5"
  shows "whitespace_only_sub
     (l1 @ [CHR 0x0A] @ p @ [CHR 0x0A, CHR 0x0A] @
      l2 @ [CHR 0x0A] @ c @ [CHR 0x0A] @
      l3 @ [CHR 0x0A, CHR 0x0A] @
      l4 @ [CHR 0x0A] @ n @ [CHR 0x0A, CHR 0x0A] @
      l5 @ [CHR 0x0A] @ g @ [CHR 0x0A]) =
      l1 @ [CHR 0x0A] @ whitespace_only_sub p @ [CHR 0x0A, CHR 0x0A] @
      l2 @ [CHR 0x0A] @ whitespace_only_sub c @ [CHR 0x0A] @
      l3 @ [CHR 0x0A, CHR 0x0A] @
      l4 @ [CHR 0x0A] @ whitespace_only_sub n @ [CHR 0x0A, CHR 0x0A] @
      l5 @ [CHR 0x0A] @ whitespace_only_sub g @ [CHR 0x0A]"
  using assms
  by (simp add: whitespace_only_sub_append whitespace_only_sub_newline whitespace_only_sub_Nil
      fixed_line_sub)

lemma dedent_frame:
  assumes "fixed_line l1" "fixed_line l2" "fixed_line l3" "fixed_line l4" "fixed_line l5"
  shows "dedent
     (l1 @ [CHR 0x0A] @ p @ [CHR 0x0A, CHR 0x0A] @
      l2 @ [CHR 0x0A] @ c @ [CHR 0x0A] @
      l3 @ [CHR 0x0A, CHR 0x0A] @
      l4 @ [CHR 0x0A] @ n @ [CHR 0x0A, CHR 0x0A] @
      l5 @ [CHR 0x0A] @ g @ [CHR 0x0A]) =
      l1 @ [CHR 0x0A] @ whitespace_only_sub p @ [CHR 0x0A, CHR 0x0A] @
      l2 @ [CHR 0x0A] @ whitespace_only_sub c @ [CHR 0x0A] @
      l3 @ [CHR 0x0A, CHR 0x0A] @
      l4 @ [CHR 0x0A] @ whitespace_only_sub n @ [CHR 0x0A, CHR 0x0A] @
      l5 @ [CHR 0x0A] @ whitespace_only_sub g @ [CHR 0x0A]"
proof -
  let ?t = "l1 @ [CHR 0x0A] @ p @ [CHR 0x0A, CHR 0x0A] @
      l2 @ [CHR 0x0A] @ c @ [CHR 0x0A] @
      l3 @ [CHR 0x0A, CHR 0x0A] @
      l4 @ [CHR 0x0A] @ n @ [CHR 0x0A, CHR 0x0A] @
      l5 @ [CHR 0x0A] @ g @ [CHR 0x0A]"
  note w = whitespace_only_sub_frame [OF assms, of p c n g]
  have w': "whitespace_only_sub ?t = l1 @ CHR 0x0A #
      (whitespace_only_sub p @ [CHR 0x0A, CHR 0x0A] @
      l2 @ [CHR 0x0A] @ whitespace_only_sub c @ [CHR 0x0A] @
      l3 @ [CHR 0x0A, CHR 0x0A] @
      l4 @ [CHR 0x0A] @ whitespace_only_sub n @ [CHR 0x0A, CHR 0x0A] @
      l5 @ [CHR 0x0A] @ whitespace_only_sub g @ [CHR 0x0A])"
    using w by simp
  have "dedent ?t = whitespace_only_sub ?t"
    using assms(1) dedent_first_line_unindented [OF _ _ _ w'] by (simp add: fixed_line_def)
  then show ?thesis using w by simp
qed

lemma user_content_normalised:
  "user_content p c n g =
     prompt_template (whitespace_only_sub p) (whitespace_only_sub c) (whitespace_only_sub n)
       (whitespace_only_sub g)"
  unfolding user_content_def prompt_template_def
  by (rule dedent_frame) (simp_all add: fixed_line_def is_blank_def)

text \<open>
  Claim C3, as amended.  For a previous text, a chunk text, a next text and a goal none of
  which has a line of spaces and tabs only, the user message is the f-string as written:
  the previous text, then the chunk text between the lines \<open>=== BEGIN SECTION TO EXPLICATE ===\<close>
  and \<open>=== END SECTION TO EXPLICATE ===\<close>, then the next text, then the goal.  (In general
  each of the four is there with its lines of spaces and tabs emptied, which is what
  \<open>textwrap.dedent\<close> does to the formatted string: lemma \<open>user_content_normalised\<close>.)
\<close>

theorem prompt_framing:
  assumes "no_whitespace_only_line p" and "no_whitespace_only_line c"
      and "no_whitespace_only_line n" and "no_whitespace_only_line g"
  shows "user_content p c n g =
     ''=== CONTEXT BEFORE ==='' @ [CHR 0x0A] @ p @ [CHR 0x0A, CHR 0x0A] @
     ''=== BEGIN SECTION TO EXPLICATE ==='' @ [CHR 0x0A] @ c @ [CHR 0x0A] @
     ''=== END SECTION TO EXPLICATE ==='' @ [CHR 0x0A, CHR 0x0A] @
     ''=== CONTEXT AFTER ==='' @ [CHR 0x0A] @ n @ [CHR 0x0A, CHR 0x0A] @
     ''=== TASK ==='' @ [CHR 0x0A] @ g @ [CHR 0x0A]"
  unfolding user_content_normalised prompt_template_def
  using assms by (simp only: whitespace_only_sub_id)

theorem prompt_framing_witness:
  "no_whitespace_only_line ''P'' \<and> no_whitespace_only_line ''T'' \<and>
   no_whitespace_only_line ''N'' \<and> no_whitespace_only_line ''G'' \<and>
   user_content ''P'' ''T'' ''N'' ''G'' =
     ''=== CONTEXT BEFORE ==='' @ [CHR 0x0A] @ ''P'' @ [CHR 0x0A, CHR 0x0A] @
     ''=== BEGIN SECTION TO EXPLICATE ==='' @ [CHR 0x0A] @ ''T'' @ [CHR 0x0A] @
     ''=== END SECTION TO EXPLICATE ==='' @ [CHR 0x0A, CHR 0x0A] @
     ''=== CONTEXT AFTER ==='' @ [CHR 0x0A] @ ''N'' @ [CHR 0x0A, CHR 0x0A] @
     ''=== TASK ==='' @ [CHR 0x0A] @ ''G'' @ [CHR 0x0A]"
proof -
  have a: "no_whitespace_only_line ''P''" "no_whitespace_only_line ''T''"
    "no_whitespace_only_line ''N''" "no_whitespace_only_line ''G''"
    by (simp_all add: no_whitespace_only_line_def whitespace_only_line_def is_blank_def)
  show ?thesis using a prompt_framing [OF a] by blast
qed

lemma blank_line_sub:
  "whitespace_only_sub ''a\<newline> \<newline>b'' = ''a\<newline>\<newline>b''"
  by (simp add: whitespace_only_sub_def whitespace_only_line_def is_blank_def)

lemma plain_sub:
  "whitespace_only_sub ''P'' = ''P''" "whitespace_only_sub ''N'' = ''N''"
  "whitespace_only_sub ''G'' = ''G''"
  by (simp_all add: whitespace_only_sub_def whitespace_only_line_def is_blank_def)

text \<open>
  Claim C3 as stated fails for a chunk text with a line of one space: \<open>textwrap.dedent\<close> runs
  on the formatted string and empties that line, so the chunk text is nowhere in the message.
\<close>

theorem prompt_framing_counterexample:
  "user_content ''P'' ''a\<newline> \<newline>b'' ''N'' ''G'' =
     ''=== CONTEXT BEFORE ===\<newline>P\<newline>\<newline>=== BEGIN SECTION TO EXPLICATE ===\<newline>a\<newline>\<newline>b\<newline>=== END SECTION TO EXPLICATE ===\<newline>\<newline>=== CONTEXT AFTER ===\<newline>N\<newline>\<newline>=== TASK ===\<newline>G\<newline>'' \<and>
   \<not> contains (user_content ''P'' ''a\<newline> \<newline>b'' ''N'' ''G'') ''a\<newline> \<newline>b''"
proof -
  have v: "user_content ''P'' ''a\<newline> \<newline>b'' ''N'' ''G'' =
     ''=== CONTEXT BEFORE ===\<newline>P\<newline>\<newline>=== BEGIN SECTION TO EXPLICATE ===\<newline>a\<newline>\<newline>b\<newline>=== END SECTION TO EXPLICATE ===\<newline>\<newline>=== CONTEXT AFTER ===\<newline>N\<newline>\<newline>=== TASK ===\<newline>G\<newline>''"
    by (simp add: user_content_normalised blank_line_sub plain_sub prompt_template_def)
  have "\<not> contains ''=== CONTEXT BEFORE ===\<newline>P\<newline>\<newline>=== BEGIN SECTION TO EXPLICATE ===\<newline>a\<newline>\<newline>b\<newline>=== END SECTION TO EXPLICATE ===\<newline>\<newline>=== CONTEXT AFTER ===\<newline>N\<newline>\<newline>=== TASK ===\<newline>G\<newline>'' ''a\<newline> \<newline>b''"
    by (simp add: startswith_def)
  then show ?thesis using v by simp
qed

section \<open>Properties of the annotation session\<close>

lemma py_int_exception: "py_int m = Inl e \<Longrightarrow> \<exists>r. e = Exception r"
  by (auto simp: py_int_def Let_def invalid_literal_def digit_limit_def split: if_splits)

lemma get_adjacent_exception: "get_adjacent_texts s k = Inl e \<Longrightarrow> \<exists>r. e = Exception r"
  by (auto simp: get_adjacent_texts_def chunk_text_at_def key_error_def
      split: option.splits if_splits sum.splits)

lemma py_int_256: "py_int ''256'' = Inr 256"
  by (simp add: py_int_def int_isspace_def is_digit_def digits_value_def digit_value_def)

lemma demo_store_adjacent_2: "get_adjacent_texts demo_store 2 = Inr (''alpha'', ''gamma'')"
  by (simp add: get_adjacent_texts_def demo_store_def chunk_text_at_def)

text \<open>
  Claim C1.  A session for a chunk identifier that is not in \<open>CHUNKS\<close> accepts the
  connection, closes it with code 4000 and ends: these are all its events, so the model
  capability is not called and no prompt is built.
\<close>

theorem unknown_chunk_rejected:
  "CHUNKS s chunk_id = None \<Longrightarrow>
     ws_annotations env s chunk_id qp = (s, [Accept, Close 4000 None]) \<and>
     model_calls (snd (ws_annotations env s chunk_id qp)) = 0"
  by (simp add: ws_annotations_def model_calls_def)

theorem unknown_chunk_rejected_witness:
  "CHUNKS demo_store 7 = None \<and>
   ws_annotations stub_ws_env demo_store 7 Map.empty = (demo_store, [Accept, Close 4000 None]) \<and>
   model_calls (snd (ws_annotations stub_ws_env demo_store 7 Map.empty)) = 0"
proof -
  have h: "CHUNKS demo_store 7 = None" by (simp add: demo_store_def)
  show ?thesis using h unknown_chunk_rejected [OF h, of stub_ws_env Map.empty] by blast
qed

text \<open>
  Claim C9.  Whatever the outcome of a session (delivered, rejected, failed, disconnected),
  the store after it is the store before it: both dictionaries, with every field of every
  record (the annotation slots among them, which stay as \<open>ingest\<close> made them: lemma
  \<open>annotation_slots_as_ingested\<close>), and both counters.
\<close>

theorem session_never_mutates_store:
  "fst (ws_annotations env s chunk_id qp) = s"
  by (auto simp: ws_annotations_def split: option.splits prod.splits exc.splits)

lemma ws_try_model_call:
  assumes "Model_call req \<in> set (fst (ws_try env s chunk_id c qp))"
  shows "\<exists>p n. get_adjacent_texts s chunk_id = Inr (p, n) \<and>
     (\<exists>m. py_int (query_get qp ''max_tokens'' ''256'') = Inr m) \<and>
     req = annotation_request (user_content p (chunk_text c) n (query_get qp ''goal'' default_goal))"
  using assms
  by (auto simp: ws_try_def Let_def split: sum.splits option.splits prod.splits)

text \<open>
  Claim C7.  In every session that calls the model capability with a request on which it
  raises an exception other than \<open>WebSocketDisconnect\<close>, the events are: the accept, that one
  call, and the close with code 4001 and the \<open>str\<close> of the exception as reason.  No payload
  is sent and the call is not repeated.
\<close>

theorem model_failure_closes_4001:
  assumes "Model_call req \<in> set (snd (ws_annotations env s chunk_id qp))"
      and "responses_parse env req = Inl (Exception reason)"
  shows "snd (ws_annotations env s chunk_id qp) = [Accept, Model_call req, Close 4001 (Some reason)]"
proof (cases "CHUNKS s chunk_id")
  case None
  with assms show ?thesis by (simp add: ws_annotations_def)
next
  case (Some c)
  have "Model_call req \<in> set (fst (ws_try env s chunk_id c qp))"
    using assms(1) Some
    by (auto simp: ws_annotations_def split: prod.splits option.splits exc.splits)
  then obtain p n m where a: "get_adjacent_texts s chunk_id = Inr (p, n)"
    and b: "py_int (query_get qp ''max_tokens'' ''256'') = Inr m"
    and c: "req = annotation_request (user_content p (chunk_text c) n (query_get qp ''goal'' default_goal))"
    using ws_try_model_call by blast
  have "ws_try env s chunk_id c qp = ([Model_call req], Some (Exception reason))"
    using a b c assms(2) by (simp add: ws_try_def Let_def)
  then show ?thesis using Some by (simp add: ws_annotations_def)
qed

theorem model_failure_closes_4001_witness:
  "Model_call (annotation_request (user_content ''alpha'' ''beta'' ''gamma'' default_goal))
     \<in> set (snd (ws_annotations failing_ws_env demo_store 2 Map.empty)) \<and>
   responses_parse failing_ws_env (annotation_request (user_content ''alpha'' ''beta'' ''gamma'' default_goal))
     = Inl (Exception ''Request timed out.'') \<and>
   snd (ws_annotations failing_ws_env demo_store 2 Map.empty) =
     [Accept, Model_call (annotation_request (user_content ''alpha'' ''beta'' ''gamma'' default_goal)),
      Close 4001 (Some ''Request timed out.'')]"
proof -
  have a: "Model_call (annotation_request (user_content ''alpha'' ''beta'' ''gamma'' default_goal))
     \<in> set (snd (ws_annotations failing_ws_env demo_store 2 Map.empty))"
    using demo_store_adjacent_2 py_int_256
    by (simp add: ws_annotations_def ws_try_def query_get_def Let_def failing_ws_env_def
        stub_ws_env_def demo_store_def)
  have b: "responses_parse failing_ws_env
       (annotation_request (user_content ''alpha'' ''beta'' ''gamma'' default_goal))
     = Inl (Exception ''Request timed out.'')"
    by (simp add: failing_ws_env_def stub_ws_env_def)
  show ?thesis using a b model_failure_closes_4001 [OF a b] by blast
qed

text \<open>
  Claim C10.  In a session for a chunk of \<open>CHUNKS\<close> whose \<open>max_tokens\<close> parameter is given and
  is not an integer literal, \<open>int\<close> raises inside the \<open>try\<close>: the session closes with code
  4001, the code of a failure of the model capability and not the 4000 of a rejection, with
  the \<open>str\<close> of that exception as reason, and the model capability is not called.
\<close>

theorem bad_max_tokens_closes_4001:
  assumes "CHUNKS s chunk_id = Some c" and "qp ''max_tokens'' = Some m" and "py_int m = Inl e"
  shows "\<exists>reason. e = Exception reason \<and>
     snd (ws_annotations env s chunk_id qp) = [Accept, Close 4001 (Some reason)] \<and>
     model_calls (snd (ws_annotations env s chunk_id qp)) = 0"
proof -
  obtain r where r: "e = Exception r" using py_int_exception [OF assms(3)] by blast
  have "ws_try env s chunk_id c qp = ([], Some (Exception r))"
    using assms r by (simp add: ws_try_def query_get_def Let_def)
  then show ?thesis using assms(1) r by (simp add: ws_annotations_def model_calls_def)
qed

theorem bad_max_tokens_closes_4001_witness:
  "CHUNKS demo_store 2 = Some \<lparr>chunk_book_id = 1, chunk_text = ''beta'', chunk_annotation = ''''\<rparr> \<and>
   [''max_tokens'' \<mapsto> ''lots''] ''max_tokens'' = Some ''lots'' \<and>
   py_int ''lots'' = Inl (invalid_literal ''lots'') \<and>
   (\<exists>reason. invalid_literal ''lots'' = Exception reason \<and>
     snd (ws_annotations stub_ws_env demo_store 2 [''max_tokens'' \<mapsto> ''lots'']) =
       [Accept, Close 4001 (Some reason)] \<and>
     model_calls (snd (ws_annotations stub_ws_env demo_store 2 [''max_tokens'' \<mapsto> ''lots''])) = 0)"
proof -
  have a: "CHUNKS demo_store 2 = Some \<lparr>chunk_book_id = 1, chunk_text = ''beta'', chunk_annotation = ''''\<rparr>"
    by (simp add: demo_store_def)
  have b: "[''max_tokens'' \<mapsto> ''lots''] ''max_tokens'' = Some ''lots''" by simp
  have c: "py_int ''lots'' = Inl (invalid_literal ''lots'')"
    by (simp add: py_int_def int_isspace_def is_digit_def)
  show ?thesis
    using a b c
      bad_max_tokens_closes_4001 [where s = demo_store and chunk_id = 2 and env = stub_ws_env
        and qp = "[''max_tokens'' \<mapsto> ''lots'']" and m = "''lots''", OF a b c]
    by blast
qed

text \<open>
  Claim C5.  The handler reads \<open>max_tokens\<close> (default \<open>"256"\<close>) and converts it with \<open>int\<close>, but
  the value goes into no argument of \<open>client.responses.parse\<close>: two sessions that differ only
  in an integer \<open>max_tokens\<close> have the same events, the request to the model capability
  among them.
\<close>

theorem max_tokens_not_in_request:
  assumes "py_int m1 = Inr a" and "py_int m2 = Inr b"
  shows "ws_annotations env s chunk_id (qp(''max_tokens'' \<mapsto> m1)) =
         ws_annotations env s chunk_id (qp(''max_tokens'' \<mapsto> m2))"
  using assms
  by (simp add: ws_annotations_def ws_try_def query_get_def Let_def split: option.splits)

theorem max_tokens_not_in_request_witness:
  "py_int ''1'' = Inr 1 \<and> py_int ''256'' = Inr 256 \<and>
   ws_annotations stub_ws_env demo_store 2 [''max_tokens'' \<mapsto> ''1''] =
   ws_annotations stub_ws_env demo_store 2 [''max_tokens'' \<mapsto> ''256'']"
proof -
  have a: "py_int ''1'' = Inr 1"
    by (simp add: py_int_def int_isspace_def is_digit_def digits_value_def digit_value_def)
  have b: "py_int ''256'' = Inr 256"
    by (simp add: py_int_def int_isspace_def is_digit_def digits_value_def digit_value_def)
  show ?thesis
    using a b max_tokens_not_in_request [OF a b, of stub_ws_env demo_store 2 Map.empty] by blast
qed

end
